theory Spec2Isabelle
  imports Main "HOL-Library.Word"
begin

unbundle bit_operations_syntax

section \<open>The remote access client (package hana)\<close>

subsection \<open>Errors, panics and results\<close>

text \<open>
  A Go \<open>error\<close> value is one of: the package's \<open>ErrFileNotFound\<close>, an
  \<open>errors.New msg\<close>, an error of the HTTP transport, or an error of a decoder.
  A run-time panic (nil dereference, slice bounds) is not an error value: it unwinds
  through every caller, so it is a third kind of outcome.
\<close>

datatype error =
    ErrFileNotFound
  | ErrorsNew string
  | TransportError string
  | DecodeError string

datatype panic = NilDereference | SliceBounds

datatype 'a res = Panic panic | Failed error | Ok 'a

subsection \<open>HTTP messages and the world outside the process\<close>

datatype info = Header "(string \<times> string) list" | QueryParam "(string \<times> string) list"

record http_request =
  req_method :: string
  req_url :: string
  req_infos :: "info list"

text \<open>
  An \<open>http.Response\<close> as far as the code reads it: the status code, the header (a
  map from canonical key to the values received under it) and what reading the body
  to its end gives.
\<close>

record http_response =
  StatusCode :: int
  RespHeader :: "(string \<times> string list) list"
  Body :: "error + string"

text \<open>
  The world: the remote service together with the network is a function from the
  requests sent so far and the request now sent to either a transport error (no
  response) or a response, and to the nanoseconds the round trip takes. \<open>sent\<close>
  records every request issued; \<open>clock\<close> is the wall clock in nanoseconds.
\<close>

record world =
  remote :: "http_request list \<Rightarrow> http_request \<Rightarrow> error + http_response"
  elapsed :: "http_request list \<Rightarrow> http_request \<Rightarrow> nat"
  sent :: "http_request list"
  clock :: int

definition roundtrip :: "world \<Rightarrow> http_request \<Rightarrow> (error + http_response) \<times> world" where
  "roundtrip w r =
     (remote w (sent w) r,
      w\<lparr>sent := sent w @ [r], clock := clock w + int (elapsed w (sent w) r)\<rparr>)"

text \<open>\<open>req.Do(method, url, infos...)\<close> and \<open>c.req.Head(url, infos...)\<close>.\<close>

definition req_Do :: "world \<Rightarrow> string \<Rightarrow> string \<Rightarrow> info list \<Rightarrow> (error + http_response) \<times> world" where
  "req_Do w method url infos = roundtrip w \<lparr>req_method = method, req_url = url, req_infos = infos\<rparr>"

definition req_Head :: "world \<Rightarrow> string \<Rightarrow> info list \<Rightarrow> (error + http_response) \<times> world" where
  "req_Head w url infos = req_Do w ''HEAD'' url infos"

subsection \<open>Library functions on strings and headers\<close>

definition upper_letters :: string where
  "upper_letters = ''ABCDEFGHIJKLMNOPQRSTUVWXYZ''"

definition lower_letters :: string where
  "lower_letters = ''abcdefghijklmnopqrstuvwxyz''"

definition lower_char :: "char \<Rightarrow> char" where
  "lower_char c = (case map_of (zip upper_letters lower_letters) c of Some l \<Rightarrow> l | None \<Rightarrow> c)"

definition upper_char :: "char \<Rightarrow> char" where
  "upper_char c = (case map_of (zip lower_letters upper_letters) c of Some u \<Rightarrow> u | None \<Rightarrow> c)"

text \<open>
  Lower-casing of ASCII text (A-Z to a-z, every other byte kept): the result of
  \<open>strings.ToLower\<close> on a string of ASCII bytes.
\<close>

definition ascii_ToLower :: "string \<Rightarrow> string" where
  "ascii_ToLower s = map lower_char s"

text \<open>
  \<open>textproto.CanonicalMIMEHeaderKey\<close> on keys made of letters, digits and hyphens:
  the first letter and every letter after a hyphen in upper case, the others in lower
  case.
\<close>

fun canonical :: "bool \<Rightarrow> string \<Rightarrow> string" where
  "canonical up [] = []"
| "canonical up (c # cs) =
     (if up then upper_char c else lower_char c) # canonical (c = CHR ''-'') cs"

definition CanonicalMIMEHeaderKey :: "string \<Rightarrow> string" where
  "CanonicalMIMEHeaderKey k = canonical True k"

text \<open>\<open>http.Header.Get\<close>: the first value under the canonical key, or the empty string.\<close>

definition Header_Get :: "(string \<times> string list) list \<Rightarrow> string \<Rightarrow> string" where
  "Header_Get h key =
     (case map_of h (CanonicalMIMEHeaderKey key) of
        None \<Rightarrow> []
      | Some [] \<Rightarrow> []
      | Some (v # _) \<Rightarrow> v)"

subsection \<open>The client\<close>

definition keyCSRFTokenHeader :: string where
  "keyCSRFTokenHeader = ''x-csrf-token''"

definition keyAuthorization :: string where
  "keyAuthorization = ''Authorization''"

definition valueRequired :: string where
  "valueRequired = ''required''"

definition StatusForbidden :: int where
  "StatusForbidden = 403"

text \<open>
  The \<open>url.URL\<close> of the client as the code reads it: \<open>Host\<close>, the result of
  \<open>Port()\<close>, the user name and password of \<open>User\<close>, and \<open>Path\<close>.
\<close>

record URL =
  Host :: string
  Port :: string
  Username :: string
  Password :: string
  Path :: string

record Client =
  uri :: URL
  token :: string
  sslVerify :: bool
  baseDirectory :: string

text \<open>
  The types \<open>DirectoryDetail\<close> and \<open>PathStat\<close> of package hana are declared outside
  the source file; they have the fields the code reads and writes. A child of a
  listing carries its name, its content location and its directory flag.
\<close>

record DirectoryChild =
  Name :: string
  ContentLocation :: string
  Directory :: bool

record DirectoryDetail =
  Children :: "DirectoryChild list"

record PathStat =
  ps_Directory :: bool
  ps_Executable :: bool
  ps_Archive :: bool
  ps_Hidden :: bool
  ps_ReadOnly :: bool
  ps_SymbolicLink :: bool
  ps_Activated :: bool
  ps_TimeStamp :: int

text \<open>
  \<open>DirectoryMeta\<close> and \<open>File\<close> with the fields \<open>Stat\<close> copies; \<open>File\<close> alone has
  \<open>Attributes.SapBackPack.Activated\<close>.
\<close>

record Attributes =
  Executable :: bool
  Archive :: bool
  Hidden :: bool
  ReadOnly :: bool
  SymbolicLink :: bool

record DirectoryMeta =
  dm_Directory :: bool
  dm_Attributes :: Attributes
  dm_LocalTimeStamp :: int

record File =
  f_Directory :: bool
  f_Attributes :: Attributes
  f_Activated :: bool
  f_LocalTimeStamp :: int

text \<open>
  \<open>basicAuth\<close>, which the source file calls and does not define, the JSON decoders
  of the libraries (\<open>encoding/json\<close>, \<open>gjson\<close>) and \<open>strings.ToLower\<close> (which follows
  the Unicode case tables) are parameters of the model.
\<close>

record lib =
  basicAuth :: "string \<Rightarrow> string \<Rightarrow> string"
  strings_ToLower :: "string \<Rightarrow> string"
  json_DirectoryDetail :: "string \<Rightarrow> error + DirectoryDetail"
  gjson_Directory :: "string \<Rightarrow> bool"
  json_DirectoryMeta :: "string \<Rightarrow> error + DirectoryMeta"
  json_File :: "string \<Rightarrow> error + File"

definition formatURI :: "Client \<Rightarrow> string \<Rightarrow> string" where
  "formatURI c path =
     (let port = (if length (Port (uri c)) = 0 then ''443'' else Port (uri c))
      in ''https://'' @ Host (uri c) @ '':'' @ port @ path)"

definition isCSRFTokenError :: "lib \<Rightarrow> http_response \<Rightarrow> bool" where
  "isCSRFTokenError L response =
     (StatusCode response = StatusForbidden \<and>
      strings_ToLower L (Header_Get (RespHeader response) keyCSRFTokenHeader) = valueRequired)"

definition fetchCSRFToken :: "lib \<Rightarrow> Client \<Rightarrow> world \<Rightarrow> error option \<times> Client \<times> world" where
  "fetchCSRFToken L c w =
     (let header = Header [(keyCSRFTokenHeader, ''fetch''),
                           (keyAuthorization, basicAuth L (Username (uri c)) (Password (uri c)))];
          (r, w1) = req_Head w (formatURI c ''/sap/hana/xs/dt/base/info'') [header]
      in case r of
           Inl err \<Rightarrow> (Some err, c, w1)
         | Inr httpResponse \<Rightarrow>
             (let status = StatusCode httpResponse;
                  tok = Header_Get (RespHeader httpResponse) ''x-csrf-token''
              in if length tok \<noteq> 0 \<and> tok \<noteq> ''unsafe'' then (None, c\<lparr>token := tok\<rparr>, w1)
                 else if 300 \<le> status \<and> status < 400
                   then (Some (ErrorsNew ''redirect, please check your credential''), c, w1)
                 else if 400 \<le> status \<and> status < 500
                   then (Some (ErrorsNew ''request is not accepted''), c, w1)
                 else if 500 \<le> status \<and> status < 600
                   then (Some (ErrorsNew ''server is down''), c, w1)
                 else (Some (ErrorsNew ''could not fetch csrf token, please check your credential''),
                       c, w1)))"

text \<open>
  \<open>request\<close>. The header is built from the token the client holds when the call
  starts and appended to \<open>infos\<close>; both calls of \<open>req.Do\<close> send that same list. When
  the first \<open>req.Do\<close> returns an error its \<open>resp\<close> is nil, and the test
  \<open>isCSRFTokenError(resp.Response())\<close>, which comes before the test of \<open>err\<close>, reads
  \<open>StatusCode\<close> through the nil pointer.
\<close>

definition request ::
  "lib \<Rightarrow> Client \<Rightarrow> world \<Rightarrow> string \<Rightarrow> string \<Rightarrow> info list \<Rightarrow> http_response res \<times> Client \<times> world" where
  "request L c w method path infos =
     (let url = formatURI c path;
          header = Header [(keyCSRFTokenHeader, token c),
                           (keyAuthorization, basicAuth L (Username (uri c)) (Password (uri c)))];
          infos1 = infos @ [header];
          (r, w1) = req_Do w method url infos1
      in case r of
           Inl err \<Rightarrow> (Panic NilDereference, c, w1)
         | Inr resp \<Rightarrow>
             if isCSRFTokenError L resp then
               (case fetchCSRFToken L c w1 of
                  (Some err, c2, w2) \<Rightarrow> (Failed err, c2, w2)
                | (None, c2, w2) \<Rightarrow>
                    (case req_Do w2 method url infos1 of
                       (Inl err, w3) \<Rightarrow> (Failed err, c2, w3)
                     | (Inr resp2, w3) \<Rightarrow> (Ok resp2, c2, w3)))
             else (Ok resp, c, w1))"

definition base_file_path :: string where
  "base_file_path = ''/sap/hana/xs/dt/base/file''"

definition ReadFile :: "lib \<Rightarrow> Client \<Rightarrow> world \<Rightarrow> string \<Rightarrow> string res \<times> Client \<times> world" where
  "ReadFile L c w filePath =
     (case request L c w ''GET'' (base_file_path @ filePath) [] of
        (Panic p, c1, w1) \<Rightarrow> (Panic p, c1, w1)
      | (Failed err, c1, w1) \<Rightarrow> (Failed err, c1, w1)
      | (Ok res, c1, w1) \<Rightarrow>
          if StatusCode res = 404 then (Failed ErrFileNotFound, c1, w1)
          else (case Body res of
                  Inl err \<Rightarrow> (Failed err, c1, w1)
                | Inr bytes \<Rightarrow> (Ok bytes, c1, w1)))"

definition ReadDirectory ::
  "lib \<Rightarrow> Client \<Rightarrow> world \<Rightarrow> string \<Rightarrow> DirectoryDetail res \<times> Client \<times> world" where
  "ReadDirectory L c w filePath =
     (case request L c w ''GET'' (base_file_path @ filePath) [QueryParam [(''depth'', ''1'')]] of
        (Panic p, c1, w1) \<Rightarrow> (Panic p, c1, w1)
      | (Failed err, c1, w1) \<Rightarrow> (Failed err, c1, w1)
      | (Ok res, c1, w1) \<Rightarrow>
          if StatusCode res = 404 then (Failed ErrFileNotFound, c1, w1)
          else (case Body res of
                  Inl err \<Rightarrow> (Failed err, c1, w1)
                | Inr bytes \<Rightarrow>
                    (case json_DirectoryDetail L bytes of
                       Inl err \<Rightarrow> (Failed err, c1, w1)
                     | Inr rt \<Rightarrow> (Ok rt, c1, w1))))"

text \<open>
  \<open>Stat\<close>. The error of \<open>res.ToString()\<close> is dropped by the code (the body is then
  the empty string).
\<close>

definition Stat :: "lib \<Rightarrow> Client \<Rightarrow> world \<Rightarrow> string \<Rightarrow> PathStat res \<times> Client \<times> world" where
  "Stat L c w filePath =
     (let rt = \<lparr>ps_Directory = False, ps_Executable = False, ps_Archive = False,
                ps_Hidden = False, ps_ReadOnly = False, ps_SymbolicLink = False,
                ps_Activated = False, ps_TimeStamp = 0\<rparr>;
          query = QueryParam [(''depth'', ''0''), (''parts'', ''meta'')]
      in case request L c w ''GET'' (base_file_path @ filePath) [query] of
           (Panic p, c1, w1) \<Rightarrow> (Panic p, c1, w1)
         | (Failed err, c1, w1) \<Rightarrow> (Failed err, c1, w1)
         | (Ok res, c1, w1) \<Rightarrow>
             if StatusCode res = 404 then (Failed ErrFileNotFound, c1, w1)
             else
               (let body = (case Body res of Inl err \<Rightarrow> [] | Inr bytes \<Rightarrow> bytes)
                in if gjson_Directory L body then
                     (case json_DirectoryMeta L body of
                        Inl err \<Rightarrow> (Failed err, c1, w1)
                      | Inr dir \<Rightarrow>
                          (Ok (rt\<lparr>ps_Directory := dm_Directory dir,
                                  ps_Executable := Executable (dm_Attributes dir),
                                  ps_Archive := Archive (dm_Attributes dir),
                                  ps_Hidden := Hidden (dm_Attributes dir),
                                  ps_ReadOnly := ReadOnly (dm_Attributes dir),
                                  ps_SymbolicLink := SymbolicLink (dm_Attributes dir),
                                  ps_TimeStamp := dm_LocalTimeStamp dir\<rparr>), c1, w1))
                   else
                     (case json_File L body of
                        Inl err \<Rightarrow> (Failed err, c1, w1)
                      | Inr f \<Rightarrow>
                          (Ok (rt\<lparr>ps_Directory := f_Directory f,
                                  ps_Executable := Executable (f_Attributes f),
                                  ps_Archive := Archive (f_Attributes f),
                                  ps_Hidden := Hidden (f_Attributes f),
                                  ps_ReadOnly := ReadOnly (f_Attributes f),
                                  ps_SymbolicLink := SymbolicLink (f_Attributes f),
                                  ps_Activated := f_Activated f,
                                  ps_TimeStamp := f_LocalTimeStamp f\<rparr>), c1, w1))))"

section \<open>The filesystem adapter (package fs)\<close>

subsection \<open>Attribute records and the two caches\<close>

record Timespec =
  Sec :: int
  Nsec :: int

text \<open>\<open>fuse.Stat_t\<close>, with the fields the code writes or reads.\<close>

record Stat_t =
  Mode :: "32 word"
  Uid :: "32 word"
  Gid :: "32 word"
  Size :: int
  Atim :: Timespec
  Mtim :: Timespec
  Ctim :: Timespec
  Flags :: "32 word"

definition zero_Timespec :: Timespec where
  "zero_Timespec = \<lparr>Sec = 0, Nsec = 0\<rparr>"

definition zero_Stat :: Stat_t where
  "zero_Stat = \<lparr>Mode = 0, Uid = 0, Gid = 0, Size = 0, Atim = zero_Timespec,
                Mtim = zero_Timespec, Ctim = zero_Timespec, Flags = 0\<rparr>"

definition S_IFDIR :: "32 word" where "S_IFDIR = 16384"
definition S_IFREG :: "32 word" where "S_IFREG = 32768"
definition S_IRWXU :: "32 word" where "S_IRWXU = 448"

definition ENOENT :: int where "ENOENT = 2"

definition DefaultRemoteCacheSeconds :: int where
  "DefaultRemoteCacheSeconds = 15"

text \<open>\<open>fuse.Now()\<close> and \<open>fuse.Getcontext()\<close> (user and group of the calling process).\<close>

definition Now :: "world \<Rightarrow> Timespec" where
  "Now w = \<lparr>Sec = clock w div 1000000000, Nsec = clock w mod 1000000000\<rparr>"

record fuse_context =
  ctx_uid :: "32 word"
  ctx_gid :: "32 word"

text \<open>
  Modelled from the spec: the entry of \<open>StatCache\<close> and \<open>DirectoryCache\<close>, whose
  file is not among the sources. An entry is a value with the time it was recorded
  (here in nanoseconds) and a time-to-live in seconds.
\<close>

record 'v entry =
  entry_value :: 'v
  stamp :: int
  ttl :: int

text \<open>
  \<open>CachedDirectory\<close> and \<open>HanaFS\<close>; the caches are the maps that \<open>NewHanaFS\<close>
  creates (\<open>map[string]*fuse.Stat_t\<close>, \<open>map[string]*CachedDirectory\<close>), each value
  with its entry data.
\<close>

record CachedDirectory =
  children :: "string \<rightharpoonup> Stat_t"

record HanaFS =
  client :: Client
  statCache :: "string \<rightharpoonup> Stat_t entry"
  dirCache :: "string \<rightharpoonup> CachedDirectory entry"
  notExistList :: "string list"

text \<open>
  Modelled from the spec: the validity of a cache entry (the caches' file is not among
  the sources). An entry is valid if and only if current time minus recorded time is
  less than the time-to-live.
\<close>

definition entry_valid :: "'v entry \<Rightarrow> int \<Rightarrow> bool" where
  "entry_valid e now = (now - stamp e < ttl e * 1000000000)"

text \<open>
  Modelled from the spec: \<open>StatCache.PreStatCacheSeconds\<close> (the caches' file is not
  among the sources). Preloading installs an entry unconditionally, timestamped now,
  bypassing the provider.
\<close>

definition PreStatCacheSeconds :: "HanaFS \<Rightarrow> world \<Rightarrow> string \<Rightarrow> Stat_t \<Rightarrow> int \<Rightarrow> HanaFS" where
  "PreStatCacheSeconds f w path stat seconds =
     f\<lparr>statCache := (statCache f)(path \<mapsto> \<lparr>entry_value = stat, stamp = clock w, ttl = seconds\<rparr>)\<rparr>"

text \<open>
  Modelled from the spec: \<open>DirectoryCache.PreDirectoryCacheSeconds\<close> (the caches' file
  is not among the sources), the same preloading for the directory cache.
\<close>

definition PreDirectoryCacheSeconds ::
  "HanaFS \<Rightarrow> world \<Rightarrow> string \<Rightarrow> CachedDirectory \<Rightarrow> int \<Rightarrow> HanaFS" where
  "PreDirectoryCacheSeconds f w path dir seconds =
     f\<lparr>dirCache := (dirCache f)(path \<mapsto> \<lparr>entry_value = dir, stamp = clock w, ttl = seconds\<rparr>)\<rparr>"

subsection \<open>The negative-existence list\<close>

fun contains :: "string list \<Rightarrow> string \<Rightarrow> bool" where
  "contains [] path = False"
| "contains (f # fs) path = (if f = path then True else contains fs path)"

definition isNotExist :: "HanaFS \<Rightarrow> string \<Rightarrow> bool" where
  "isNotExist f path = contains (notExistList f) path"

definition notExist :: "HanaFS \<Rightarrow> string \<Rightarrow> HanaFS" where
  "notExist f path =
     (if \<not> isNotExist f path then f\<lparr>notExistList := notExistList f @ [path]\<rparr> else f)"

text \<open>
  The loop of \<open>removeFromNotExist\<close>. \<open>range\<close> evaluates the slice once: it runs over
  the \<open>n\<close> indices of the slice as it was, reading each element from the backing array
  \<open>arr\<close> at the time of the iteration. \<open>m\<close> is the current length of
  \<open>f.notExistList\<close>, which shares that array. On a match,
  \<open>append(f.notExistList[:i], f.notExistList[i+1:]...)\<close> needs \<open>i + 1 \<le> m\<close> (a slice
  bound beyond the length panics) and moves the elements \<open>i+1 .. m-1\<close> one place down
  inside the array, whose element \<open>m-1\<close> keeps its old value.
\<close>

function remove_loop ::
  "string \<Rightarrow> string list \<Rightarrow> nat \<Rightarrow> nat \<Rightarrow> nat \<Rightarrow> panic + string list" where
  "remove_loop path arr m n i =
     (if i < n then
        (if arr ! i = path then
           (if i + 1 \<le> m then
              remove_loop path
                (take i arr @ take (m - (i + 1)) (drop (i + 1) arr) @ drop (m - 1) arr)
                (m - 1) n (i + 1)
            else Inl SliceBounds)
         else remove_loop path arr m n (i + 1))
      else Inr (take m arr))"
  by pat_completeness auto
termination
  by (relation "measure (\<lambda>(path, arr, m, n, i). n - i)") auto

declare remove_loop.simps [simp del]

definition removeFromNotExist :: "HanaFS \<Rightarrow> string \<Rightarrow> panic + HanaFS" where
  "removeFromNotExist f path =
     (if \<not> isNotExist f path then
        (case remove_loop path (notExistList f) (length (notExistList f))
                (length (notExistList f)) 0 of
           Inl p \<Rightarrow> Inl p
         | Inr l \<Rightarrow> Inr (f\<lparr>notExistList := l\<rparr>))
      else Inr f)"

subsection \<open>The providers of the two caches\<close>

text \<open>
  The block that \<open>getDir\<close> and \<open>getStat\<close> both contain for a regular file:
  \<open>if s.Size == 0 { if content, err := f.client.ReadFile(path); err == nil
  { s.Size = int64(len(content)) } }\<close>. An error of \<open>ReadFile\<close> leaves the size as it
  is; a panic inside \<open>ReadFile\<close> unwinds.
\<close>

definition sizeFill ::
  "lib \<Rightarrow> HanaFS \<Rightarrow> world \<Rightarrow> string \<Rightarrow> Stat_t \<Rightarrow> (panic + Stat_t) \<times> HanaFS \<times> world" where
  "sizeFill L f w path s =
     (if Size s = 0 then
        (case ReadFile L (client f) w path of
           (Panic p, c1, w1) \<Rightarrow> (Inl p, f\<lparr>client := c1\<rparr>, w1)
         | (Failed err, c1, w1) \<Rightarrow> (Inr s, f\<lparr>client := c1\<rparr>, w1)
         | (Ok content, c1, w1) \<Rightarrow> (Inr (s\<lparr>Size := int (length content)\<rparr>), f\<lparr>client := c1\<rparr>, w1))
      else (Inr s, f, w))"

definition getStat ::
  "lib \<Rightarrow> HanaFS \<Rightarrow> world \<Rightarrow> fuse_context \<Rightarrow> string \<Rightarrow> Stat_t res \<times> HanaFS \<times> world" where
  "getStat L f w ctx path =
     (case Stat L (client f) w path of
        (Panic p, c1, w1) \<Rightarrow> (Panic p, f\<lparr>client := c1\<rparr>, w1)
      | (Failed err, c1, w1) \<Rightarrow> (Failed err, f\<lparr>client := c1\<rparr>, w1)
      | (Ok hanaStat, c1, w1) \<Rightarrow>
          (let f1 = f\<lparr>client := c1\<rparr>;
               now = Now w1;
               s = zero_Stat\<lparr>Gid := ctx_gid ctx, Uid := ctx_uid ctx,
                             Ctim := now, Atim := now, Mtim := now\<rparr>
           in if ps_Directory hanaStat then
                (let s1 = s\<lparr>Mode := S_IFDIR OR S_IRWXU\<rparr>
                 in (Ok s1, PreStatCacheSeconds f1 w1 path s1 DefaultRemoteCacheSeconds, w1))
              else
                (case sizeFill L f1 w1 path (s\<lparr>Mode := S_IFREG OR S_IRWXU\<rparr>) of
                   (Inl p, f2, w2) \<Rightarrow> (Panic p, f2, w2)
                 | (Inr s2, f2, w2) \<Rightarrow>
                     (Ok s2, PreStatCacheSeconds f2 w2 path s2 DefaultRemoteCacheSeconds, w2))))"

text \<open>
  Modelled from the spec: \<open>StatCache.GetStat\<close> (the caches' file is not among the
  sources), with \<open>getStat\<close> as its provider, as \<open>NewHanaFS\<close> sets it. A valid entry
  is returned without calling the provider; otherwise the provider is called, and on
  success its result is stored with a fresh timestamp and the configured time-to-live,
  on failure its error is propagated and nothing is stored.
\<close>

definition GetStat ::
  "lib \<Rightarrow> HanaFS \<Rightarrow> world \<Rightarrow> fuse_context \<Rightarrow> string \<Rightarrow> Stat_t res \<times> HanaFS \<times> world" where
  "GetStat L f w ctx path =
     (let fetch =
            (case getStat L f w ctx path of
               (Panic p, f1, w1) \<Rightarrow> (Panic p, f1, w1)
             | (Failed err, f1, w1) \<Rightarrow> (Failed err, f1, w1)
             | (Ok s, f1, w1) \<Rightarrow>
                 (Ok s, PreStatCacheSeconds f1 w1 path s DefaultRemoteCacheSeconds, w1))
      in case statCache f path of
           None \<Rightarrow> fetch
         | Some e \<Rightarrow> if entry_valid e (clock w) then (Ok (entry_value e), f, w) else fetch)"

text \<open>
  The body of the loop of \<open>getDir\<close> up to the child's record: the size of a regular
  file is filled by reading \<open>path\<close>, the argument of \<open>getDir\<close>.
\<close>

definition childStat ::
  "lib \<Rightarrow> HanaFS \<Rightarrow> world \<Rightarrow> fuse_context \<Rightarrow> string \<Rightarrow> Timespec \<Rightarrow> DirectoryChild
     \<Rightarrow> (panic + Stat_t) \<times> HanaFS \<times> world" where
  "childStat L f w ctx path now hanaChild =
     (let fsChildStat = zero_Stat\<lparr>Flags := 0, Uid := ctx_uid ctx, Gid := ctx_gid ctx,
                                 Ctim := now, Atim := now, Mtim := now\<rparr>
      in if Directory hanaChild then (Inr (fsChildStat\<lparr>Mode := S_IFDIR OR S_IRWXU\<rparr>), f, w)
         else sizeFill L f w path (fsChildStat\<lparr>Mode := S_IFREG OR S_IRWXU\<rparr>))"

fun getDir_loop ::
  "lib \<Rightarrow> HanaFS \<Rightarrow> world \<Rightarrow> fuse_context \<Rightarrow> string \<Rightarrow> Timespec \<Rightarrow> DirectoryChild list
     \<Rightarrow> CachedDirectory \<Rightarrow> (panic + CachedDirectory) \<times> HanaFS \<times> world" where
  "getDir_loop L f w ctx path now [] rt = (Inr rt, f, w)"
| "getDir_loop L f w ctx path now (hanaChild # rest) rt =
     (case childStat L f w ctx path now hanaChild of
        (Inl p, f1, w1) \<Rightarrow> (Inl p, f1, w1)
      | (Inr fsChildStat, f1, w1) \<Rightarrow>
          (let nodeName = Name hanaChild;
               nodePath = ContentLocation hanaChild
           in getDir_loop L
                (PreStatCacheSeconds f1 w1 nodePath fsChildStat DefaultRemoteCacheSeconds)
                w1 ctx path now rest
                (rt\<lparr>children := (children rt)(nodeName \<mapsto> fsChildStat)\<rparr>)))"

definition getDir ::
  "lib \<Rightarrow> HanaFS \<Rightarrow> world \<Rightarrow> fuse_context \<Rightarrow> string \<Rightarrow> CachedDirectory res \<times> HanaFS \<times> world" where
  "getDir L f w ctx path =
     (case ReadDirectory L (client f) w path of
        (Panic p, c1, w1) \<Rightarrow> (Panic p, f\<lparr>client := c1\<rparr>, w1)
      | (Failed err, c1, w1) \<Rightarrow> (Failed err, f\<lparr>client := c1\<rparr>, w1)
      | (Ok dir, c1, w1) \<Rightarrow>
          (case getDir_loop L (f\<lparr>client := c1\<rparr>) w1 ctx path (Now w1) (Children dir)
                  \<lparr>children = Map.empty\<rparr> of
             (Inl p, f2, w2) \<Rightarrow> (Panic p, f2, w2)
           | (Inr rt, f2, w2) \<Rightarrow>
               (Ok rt, PreDirectoryCacheSeconds f2 w2 path rt DefaultRemoteCacheSeconds, w2)))"

subsection \<open>The operations of the adapter\<close>

text \<open>
  \<open>Getattr\<close> returns the status and the content of \<open>*s\<close>. \<open>stat\<close> points to the
  record the cache holds, so the assignment of \<open>Uid\<close> and \<open>Gid\<close> is also seen in the
  entry of the attribute cache. Records are kept by value here: a listing in the
  directory cache that holds the same pointer (stored by \<open>getDir\<close>) is not followed, so
  \<open>dirCache\<close> after a \<open>Getattr\<close> is not what the properties below speak about.
\<close>

definition Getattr ::
  "lib \<Rightarrow> HanaFS \<Rightarrow> world \<Rightarrow> fuse_context \<Rightarrow> string \<Rightarrow> Stat_t
     \<Rightarrow> (panic + int \<times> Stat_t) \<times> HanaFS \<times> world" where
  "Getattr L f w ctx path s =
     (if isNotExist f path then (Inr (- ENOENT, s), f, w)
      else
        (case GetStat L f w ctx path of
           (Panic p, f1, w1) \<Rightarrow> (Inl p, f1, w1)
         | (Failed err, f1, w1) \<Rightarrow> (Inr (- ENOENT, s), notExist f1 path, w1)
         | (Ok stat, f1, w1) \<Rightarrow>
             (let stat1 = (if Uid stat = 0
                           then stat\<lparr>Uid := ctx_uid ctx, Gid := ctx_gid ctx\<rparr> else stat);
                  f2 = (case statCache f1 path of
                          None \<Rightarrow> f1
                        | Some e \<Rightarrow>
                            f1\<lparr>statCache := (statCache f1)(path \<mapsto> e\<lparr>entry_value := stat1\<rparr>)\<rparr>)
              in (Inr (0, stat1), f2, w1))))"

text \<open>
  \<open>Read\<close> returns \<open>n\<close> and the content of \<open>buff\<close>. \<open>ofst\<close> is an \<open>int64\<close>; the
  sum \<open>ofst + int64(len(buff))\<close> wraps around. The slice expression
  \<open>contents[ofst:endofst]\<close> panics unless \<open>0 \<le> ofst \<le> endofst \<le> cap(contents)\<close>
  (here \<open>endofst\<close> is at most the length).
\<close>

definition wrap64 :: "int \<Rightarrow> int" where
  "wrap64 x = (x + 9223372036854775808) mod 18446744073709551616 - 9223372036854775808"

definition copy :: "'a list \<Rightarrow> 'a list \<Rightarrow> nat \<times> 'a list" where
  "copy dst src = (let n = min (length dst) (length src) in (n, take n src @ drop n dst))"

definition Read ::
  "lib \<Rightarrow> HanaFS \<Rightarrow> world \<Rightarrow> string \<Rightarrow> string \<Rightarrow> int
     \<Rightarrow> (panic + int \<times> string) \<times> HanaFS \<times> world" where
  "Read L f w path buff ofst =
     (case ReadFile L (client f) w path of
        (Panic p, c1, w1) \<Rightarrow> (Inl p, f\<lparr>client := c1\<rparr>, w1)
      | (Failed err, c1, w1) \<Rightarrow> (Inr (- ENOENT, buff), f\<lparr>client := c1\<rparr>, w1)
      | (Ok contents, c1, w1) \<Rightarrow>
          (let endofst0 = wrap64 (ofst + int (length buff));
               endofst = (if endofst0 > int (length contents)
                          then int (length contents) else endofst0)
           in if endofst < ofst then (Inr (0, buff), f\<lparr>client := c1\<rparr>, w1)
              else if 0 \<le> ofst \<and> ofst \<le> endofst \<and> endofst \<le> int (length contents) then
                (let (n, buff1) = copy buff (take (nat (endofst - ofst)) (drop (nat ofst) contents))
                 in (Inr (int n, buff1), f\<lparr>client := c1\<rparr>, w1))
              else (Inl SliceBounds, f\<lparr>client := c1\<rparr>, w1)))"

section \<open>Terms used to state the properties\<close>

text \<open>The request of the token-refresh handshake, and the first request of \<open>request\<close>.\<close>

definition token_probe :: "lib \<Rightarrow> Client \<Rightarrow> http_request" where
  "token_probe L c =
     \<lparr>req_method = ''HEAD'', req_url = formatURI c ''/sap/hana/xs/dt/base/info'',
      req_infos = [Header [(keyCSRFTokenHeader, ''fetch''),
                           (keyAuthorization, basicAuth L (Username (uri c)) (Password (uri c)))]]\<rparr>"

definition first_attempt :: "lib \<Rightarrow> Client \<Rightarrow> string \<Rightarrow> string \<Rightarrow> info list \<Rightarrow> http_request" where
  "first_attempt L c method path infos =
     \<lparr>req_method = method, req_url = formatURI c path,
      req_infos = infos @ [Header [(keyCSRFTokenHeader, token c),
                           (keyAuthorization, basicAuth L (Username (uri c)) (Password (uri c)))]]\<rparr>"

text \<open>The value a request carries under a header key.\<close>

fun header_entries :: "info list \<Rightarrow> (string \<times> string) list" where
  "header_entries [] = []"
| "header_entries (Header h # is) = h @ header_entries is"
| "header_entries (QueryParam q # is) = header_entries is"

definition carried :: "http_request \<Rightarrow> string \<Rightarrow> string option" where
  "carried r key = map_of (header_entries (req_infos r)) key"

text \<open>Sequences of additions to and removals from the negative-existence list.\<close>

datatype list_op = Add string | Remove string

fun apply_ops :: "list_op list \<Rightarrow> HanaFS \<Rightarrow> panic + HanaFS" where
  "apply_ops [] f = Inr f"
| "apply_ops (Add p # ops) f = apply_ops ops (notExist f p)"
| "apply_ops (Remove p # ops) f =
     (case removeFromNotExist f p of Inl e \<Rightarrow> Inl e | Inr f1 \<Rightarrow> apply_ops ops f1)"

text \<open>
  The record that the loop of \<open>getDir\<close> builds for a child, but for the size of a
  regular file: mode bits by the directory flag, owner and group of the calling
  context, the three times set to \<open>now\<close>, no flags, size 0 for a directory.
\<close>

definition child_record_of :: "fuse_context \<Rightarrow> Timespec \<Rightarrow> DirectoryChild \<Rightarrow> Stat_t \<Rightarrow> bool" where
  "child_record_of ctx now d st =
     (Mode st = (if Directory d then S_IFDIR OR S_IRWXU else S_IFREG OR S_IRWXU)
      \<and> Uid st = ctx_uid ctx \<and> Gid st = ctx_gid ctx
      \<and> Atim st = now \<and> Mtim st = now \<and> Ctim st = now \<and> Flags st = 0
      \<and> (Directory d \<longrightarrow> Size st = 0))"

subsection \<open>Concrete clients, services and adapters\<close>

definition L0 :: lib where
  "L0 = \<lparr>basicAuth = (\<lambda>u p. ''Basic '' @ u @ '':'' @ p),
         strings_ToLower = ascii_ToLower,
         json_DirectoryDetail = (\<lambda>b. Inl (DecodeError ''json'')),
         gjson_Directory = (\<lambda>b. False),
         json_DirectoryMeta = (\<lambda>b. Inl (DecodeError ''json'')),
         json_File = (\<lambda>b. Inl (DecodeError ''json''))\<rparr>"

definition c0 :: Client where
  "c0 = \<lparr>uri = \<lparr>Host = ''hana.example'', Port = [], Username = ''u'', Password = ''p'',
                Path = ''/''\<rparr>,
         token = ''old'', sslVerify = True, baseDirectory = ''/''\<rparr>"

text \<open>
  A service that issues the token \<open>new\<close> on the handshake and answers every other
  request that does not carry it with 403 and \<open>x-csrf-token: Required\<close>.
\<close>

definition strict_service :: "http_request list \<Rightarrow> http_request \<Rightarrow> error + http_response" where
  "strict_service hist r =
     (if req_method r = ''HEAD''
      then Inr \<lparr>StatusCode = 200, RespHeader = [(''X-Csrf-Token'', [''new''])], Body = Inr []\<rparr>
      else if carried r ''x-csrf-token'' = Some ''new''
      then Inr \<lparr>StatusCode = 200, RespHeader = [], Body = Inr ''content''\<rparr>
      else Inr \<lparr>StatusCode = 403, RespHeader = [(''X-Csrf-Token'', [''Required''])],
                Body = Inr []\<rparr>)"

definition w_strict :: world where
  "w_strict = \<lparr>remote = strict_service, elapsed = (\<lambda>hist r. 1000000), sent = [], clock = 0\<rparr>"

text \<open>A service that cannot be reached.\<close>

definition w_down :: world where
  "w_down = \<lparr>remote = (\<lambda>hist r. Inl (TransportError ''connection refused'')),
             elapsed = (\<lambda>hist r. 1000000), sent = [], clock = 0\<rparr>"

definition f0 :: HanaFS where
  "f0 = \<lparr>client = c0, statCache = Map.empty, dirCache = Map.empty, notExistList = []\<rparr>"

text \<open>
  A service with a directory \<open>/parent\<close> that lists a regular file \<open>a\<close> (content
  \<open>hello world\<close>, 11 bytes) and a directory \<open>b\<close>. A request for \<open>/parent\<close> itself
  without \<open>depth=1\<close> is answered with the 7 bytes \<open>dirmeta\<close>; every other path is
  answered with 404.
\<close>

definition child_a :: DirectoryChild where
  "child_a = \<lparr>Name = ''a'', ContentLocation = ''/parent/a'', Directory = False\<rparr>"

definition child_b :: DirectoryChild where
  "child_b = \<lparr>Name = ''b'', ContentLocation = ''/parent/b'', Directory = True\<rparr>"

definition L_dir :: lib where
  "L_dir = L0\<lparr>json_DirectoryDetail :=
             (\<lambda>b. if b = ''LISTING'' then Inr \<lparr>Children = [child_a, child_b]\<rparr>
                  else Inl (DecodeError ''json''))\<rparr>"

definition dir_service :: "http_request list \<Rightarrow> http_request \<Rightarrow> error + http_response" where
  "dir_service hist r =
     (if req_url r = ''https://hana.example:443/sap/hana/xs/dt/base/file/parent'' then
        (if QueryParam [(''depth'', ''1'')] \<in> set (req_infos r)
         then Inr \<lparr>StatusCode = 200, RespHeader = [], Body = Inr ''LISTING''\<rparr>
         else Inr \<lparr>StatusCode = 200, RespHeader = [], Body = Inr ''dirmeta''\<rparr>)
      else if req_url r = ''https://hana.example:443/sap/hana/xs/dt/base/file/parent/a''
      then Inr \<lparr>StatusCode = 200, RespHeader = [], Body = Inr ''hello world''\<rparr>
      else Inr \<lparr>StatusCode = 404, RespHeader = [], Body = Inr []\<rparr>)"

definition w_dir :: world where
  "w_dir = \<lparr>remote = dir_service, elapsed = (\<lambda>hist r. 1000000), sent = [], clock = 0\<rparr>"

definition ctx0 :: fuse_context where
  "ctx0 = \<lparr>ctx_uid = 1000, ctx_gid = 100\<rparr>"

text \<open>An adapter whose attribute cache holds, for \<open>/x\<close>, a record without owner.\<close>

definition stat_unowned :: Stat_t where
  "stat_unowned = zero_Stat\<lparr>Mode := S_IFREG OR S_IRWXU\<rparr>"

definition f_unowned :: HanaFS where
  "f_unowned = PreStatCacheSeconds f0 w_dir ''/x'' stat_unowned DefaultRemoteCacheSeconds"

text \<open>An adapter that has recorded \<open>/parent/a\<close> as absent.\<close>

definition f_gone :: HanaFS where
  "f_gone = f0\<lparr>notExistList := [''/parent/a'']\<rparr>"

section \<open>Properties\<close>

lemmas str_simps = CanonicalMIMEHeaderKey_def upper_char_def lower_char_def upper_letters_def
  lower_letters_def ascii_ToLower_def Header_Get_def keyCSRFTokenHeader_def
  keyAuthorization_def valueRequired_def StatusForbidden_def

subsection \<open>The token-refresh handshake\<close>

text \<open>
  C7. When the handshake's round trip produces a response, \<open>fetchCSRFToken\<close> succeeds
  and installs the value of the response's \<open>x-csrf-token\<close> header if and only if that
  value is non-empty and not \<open>unsafe\<close>; otherwise the client is unchanged and the error
  is chosen by the status: 300-399 the redirect/credential error, 400-499 the
  rejected-request error, 500-599 the server-down error, anything else the generic
  token-fetch error.
\<close>

theorem fetchCSRFToken_outcome:
  assumes "remote w (sent w) (token_probe L c) = Inr resp"
  shows "fetchCSRFToken L c w =
     (let tok = Header_Get (RespHeader resp) ''x-csrf-token'';
          status = StatusCode resp;
          w1 = snd (roundtrip w (token_probe L c))
      in if tok \<noteq> [] \<and> tok \<noteq> ''unsafe''
         then (None, c\<lparr>token := tok\<rparr>, w1)
         else (Some (ErrorsNew
                 (if 300 \<le> status \<and> status < 400 then ''redirect, please check your credential''
                  else if 400 \<le> status \<and> status < 500 then ''request is not accepted''
                  else if 500 \<le> status \<and> status < 600 then ''server is down''
                  else ''could not fetch csrf token, please check your credential'')), c, w1))
   \<and> ((fst (fetchCSRFToken L c w) = None) =
        (Header_Get (RespHeader resp) ''x-csrf-token'' \<noteq> [] \<and>
         Header_Get (RespHeader resp) ''x-csrf-token'' \<noteq> ''unsafe''))"
  using assms
  by (simp add: fetchCSRFToken_def req_Head_def req_Do_def roundtrip_def token_probe_def Let_def)

theorem fetchCSRFToken_outcome_witness:
  "remote w_strict (sent w_strict) (token_probe L0 c0) =
     Inr \<lparr>StatusCode = 200, RespHeader = [(''X-Csrf-Token'', [''new''])], Body = Inr []\<rparr>
   \<and> fst (fetchCSRFToken L0 c0 w_strict) = None
   \<and> token (fst (snd (fetchCSRFToken L0 c0 w_strict))) = ''new''"
proof -
  have h: "remote w_strict (sent w_strict) (token_probe L0 c0) =
     Inr \<lparr>StatusCode = 200, RespHeader = [(''X-Csrf-Token'', [''new''])], Body = Inr []\<rparr>"
    by (simp add: w_strict_def strict_service_def token_probe_def)
  show ?thesis
    using h fetchCSRFToken_outcome [OF h]
    by (simp add: str_simps Let_def)
qed

subsection \<open>The retry of \<open>request\<close>\<close>

text \<open>
  C10. When the first round trip of \<open>request\<close> fails with a transport error, the
  code does not return that error: it tests the absent response for the
  token-required signal first and panics on the nil pointer.
\<close>

theorem request_transport_error_panics:
  assumes "remote w (sent w) (first_attempt L c method path infos) = Inl err"
  shows "fst (request L c w method path infos) = Panic NilDereference"
  using assms
  by (simp add: request_def req_Do_def roundtrip_def first_attempt_def Let_def)

theorem request_transport_error_panics_witness:
  "remote w_down (sent w_down) (first_attempt L0 c0 ''GET'' ''/x'' []) =
     Inl (TransportError ''connection refused'')
   \<and> fst (request L0 c0 w_down ''GET'' ''/x'' []) = Panic NilDereference"
proof -
  have h: "remote w_down (sent w_down) (first_attempt L0 c0 ''GET'' ''/x'' []) =
     Inl (TransportError ''connection refused'')"
    by (simp add: w_down_def)
  show ?thesis using h request_transport_error_panics [OF h] by simp
qed

text \<open>
  After a token-required answer and a successful handshake, \<open>request\<close> sends the
  request of the first attempt once more, header included, and returns what that round
  trip gives: the header was built from the token the client held before the handshake.
\<close>

lemma request_retry_repeats_first_attempt:
  assumes "remote w (sent w) (first_attempt L c method path infos) = Inr resp"
      and "isCSRFTokenError L resp"
      and "fetchCSRFToken L c (snd (roundtrip w (first_attempt L c method path infos))) = (None, c2, w2)"
  shows "request L c w method path infos =
           ((case remote w2 (sent w2) (first_attempt L c method path infos) of
               Inl err \<Rightarrow> Failed err | Inr resp2 \<Rightarrow> Ok resp2),
            c2, snd (roundtrip w2 (first_attempt L c method path infos)))"
  using assms
  by (simp add: request_def req_Do_def roundtrip_def first_attempt_def Let_def split: sum.splits)

text \<open>
  C1. A client holding the token \<open>old\<close> sends a request to the strict service. The
  answer is 403 with \<open>x-csrf-token: Required\<close>; the client performs one handshake and
  receives the token \<open>new\<close>; the one retry carries \<open>old\<close> again, and the caller is
  handed the second 403 response.
\<close>

theorem request_retry_carries_old_token:
  "(case request L0 c0 w_strict ''GET'' ''/sap/hana/xs/dt/base/file/a'' [] of
      (r, c', w') \<Rightarrow>
         map (\<lambda>q. (req_method q, carried q keyCSRFTokenHeader)) (sent w') =
           [(''GET'', Some ''old''), (''HEAD'', Some ''fetch''), (''GET'', Some ''old'')]
         \<and> token c' = ''new''
         \<and> r = Ok \<lparr>StatusCode = 403, RespHeader = [(''X-Csrf-Token'', [''Required''])],
                   Body = Inr []\<rparr>)"
  by (simp add: request_def fetchCSRFToken_def req_Head_def req_Do_def roundtrip_def Let_def
      isCSRFTokenError_def w_strict_def strict_service_def c0_def L0_def carried_def str_simps
      formatURI_def)

subsection \<open>The negative-existence list\<close>

lemma contains_set: "contains l p = (p \<in> set l)"
  by (induction l) auto

lemma remove_loop_absent:
  "path \<notin> set arr \<Longrightarrow> n \<le> length arr \<Longrightarrow> remove_loop path arr m n i = Inr (take m arr)"
proof (induction "n - i" arbitrary: i)
  case 0
  then have "\<not> i < n" by simp
  then show ?case by (subst remove_loop.simps) simp
next
  case (Suc k)
  then have lt: "i < n" by simp
  with Suc.prems have "i < length arr" by simp
  with Suc.prems have ne: "arr ! i \<noteq> path" using nth_mem by metis
  have "k = n - (i + 1)" using Suc.hyps(2) by simp
  then have "remove_loop path arr m n (i + 1) = Inr (take m arr)"
    using Suc.hyps(1) Suc.prems by blast
  then show ?case using lt ne by (subst remove_loop.simps) simp
qed

lemma removeFromNotExist_unchanged: "removeFromNotExist f path = Inr f"
  by (simp add: removeFromNotExist_def isNotExist_def contains_set remove_loop_absent)

text \<open>
  C3. With the list \<open>["/a"]\<close>, \<open>removeFromNotExist "/a"\<close> returns with the list as it
  was: the loop that removes runs only when the path is not in the list, so \<open>/a\<close> is
  still a member afterwards.
\<close>

theorem removeFromNotExist_keeps_present_path:
  "removeFromNotExist (f0\<lparr>notExistList := [''/a'']\<rparr>) ''/a'' = Inr (f0\<lparr>notExistList := [''/a'']\<rparr>)
   \<and> isNotExist (f0\<lparr>notExistList := [''/a'']\<rparr>) ''/a''"
  by (simp add: removeFromNotExist_def isNotExist_def)

lemma notExist_distinct: "distinct (notExistList f) \<Longrightarrow> distinct (notExistList (notExist f p))"
  by (simp add: notExist_def isNotExist_def contains_set)

lemma apply_ops_distinct:
  "distinct (notExistList f) \<Longrightarrow> \<exists>f'. apply_ops ops f = Inr f' \<and> distinct (notExistList f')"
proof (induction ops arbitrary: f)
  case Nil
  then show ?case by simp
next
  case (Cons op ops)
  show ?case
  proof (cases op)
    case (Add p)
    with Cons show ?thesis by (simp add: notExist_distinct)
  next
    case (Remove p)
    with Cons show ?thesis by (simp add: removeFromNotExist_unchanged)
  qed
qed

text \<open>
  C9. Starting from the empty list, every sequence of \<open>notExist\<close> and
  \<open>removeFromNotExist\<close> calls runs to its end without a panic and leaves a list in
  which every path occurs at most once.
\<close>

theorem notExistList_never_duplicates:
  "\<exists>f'. apply_ops ops (f\<lparr>notExistList := []\<rparr>) = Inr f' \<and> distinct (notExistList f')"
  by (rule apply_ops_distinct) simp

subsection \<open>Evaluation of the concrete scenarios\<close>

lemmas eval_simps = request_def fetchCSRFToken_def req_Head_def req_Do_def roundtrip_def Let_def
  isCSRFTokenError_def c0_def L0_def str_simps formatURI_def base_file_path_def
  ReadFile_def ReadDirectory_def Stat_def

lemmas dir_simps = L_dir_def w_dir_def dir_service_def f0_def ctx0_def child_a_def child_b_def

lemmas fs_simps = getDir_def childStat_def sizeFill_def PreStatCacheSeconds_def
  PreDirectoryCacheSeconds_def Now_def zero_Stat_def zero_Timespec_def getStat_def GetStat_def
  DefaultRemoteCacheSeconds_def entry_valid_def isNotExist_def notExist_def ENOENT_def

subsection \<open>\<open>Getattr\<close> and the negative-existence list\<close>

lemma GetStat_hit:
  "statCache f k = Some e \<Longrightarrow> entry_valid e (clock w) \<Longrightarrow>
     GetStat L f w ctx k = (Ok (entry_value e), f, w)"
  by (simp add: GetStat_def)

lemma Getattr_hit:
  assumes "statCache f k = Some e" and "entry_valid e (clock w)" and "\<not> isNotExist f k"
  shows "fst (Getattr L f w ctx k s) =
           Inr (0, if Uid (entry_value e) = 0
                   then (entry_value e)\<lparr>Uid := ctx_uid ctx, Gid := ctx_gid ctx\<rparr>
                   else entry_value e)
         \<and> snd (snd (Getattr L f w ctx k s)) = w"
  using assms by (simp add: Getattr_def GetStat_hit Let_def)

text \<open>
  Where the lookup returns: if the path is in the negative-existence list, \<open>Getattr\<close>
  returns \<open>-ENOENT\<close> and leaves the adapter and the world (so the requests sent) as
  they were. Otherwise, if the lookup in the attribute cache returns an error value,
  \<open>Getattr\<close> returns \<open>-ENOENT\<close> and the path is in the list afterwards, so that every
  later \<open>Getattr\<close> on the path, in whatever world, returns \<open>-ENOENT\<close> and leaves
  adapter and world as they were.
\<close>

theorem Getattr_negative_list:
  "(isNotExist f p \<longrightarrow> Getattr L f w ctx p s = (Inr (- ENOENT, s), f, w))
   \<and> (\<not> isNotExist f p \<and> GetStat L f w ctx p = (Failed err, f1, w1) \<longrightarrow>
        Getattr L f w ctx p s = (Inr (- ENOENT, s), notExist f1 p, w1)
        \<and> isNotExist (notExist f1 p) p
        \<and> (\<forall>w2 ctx2 s2. Getattr L (notExist f1 p) w2 ctx2 p s2 =
              (Inr (- ENOENT, s2), notExist f1 p, w2)))"
proof -
  have m: "isNotExist (notExist f1 p) p"
    by (simp add: notExist_def isNotExist_def contains_set)
  then have "\<forall>w2 ctx2 s2. Getattr L (notExist f1 p) w2 ctx2 p s2 =
              (Inr (- ENOENT, s2), notExist f1 p, w2)"
    by (simp add: Getattr_def)
  with m show ?thesis by (simp add: Getattr_def)
qed

lemma GetStat_missing:
  "GetStat L_dir f0 w_dir ctx0 ''/missing'' =
     (Failed ErrFileNotFound, f0,
      w_dir\<lparr>sent := [first_attempt L_dir c0 ''GET'' ''/sap/hana/xs/dt/base/file/missing''
                        [QueryParam [(''depth'', ''0''), (''parts'', ''meta'')]]],
            clock := 1000000\<rparr>)"
  by (simp add: eval_simps dir_simps first_attempt_def fs_simps)

text \<open>
  The two cases at work: a path already in the list, and the path \<open>/missing\<close>, for
  which the service answers the request of \<open>Stat\<close> with 404.
\<close>

theorem Getattr_negative_list_witness:
  "isNotExist (f0\<lparr>notExistList := [''/gone'']\<rparr>) ''/gone''
   \<and> Getattr L_dir (f0\<lparr>notExistList := [''/gone'']\<rparr>) w_dir ctx0 ''/gone'' zero_Stat =
       (Inr (- ENOENT, zero_Stat), f0\<lparr>notExistList := [''/gone'']\<rparr>, w_dir)
   \<and> \<not> isNotExist f0 ''/missing''
   \<and> fst (GetStat L_dir f0 w_dir ctx0 ''/missing'') = Failed ErrFileNotFound
   \<and> fst (Getattr L_dir f0 w_dir ctx0 ''/missing'' zero_Stat) = Inr (- ENOENT, zero_Stat)
   \<and> notExistList (fst (snd (Getattr L_dir f0 w_dir ctx0 ''/missing'' zero_Stat))) = [''/missing'']
   \<and> Getattr L_dir (f0\<lparr>notExistList := [''/missing'']\<rparr>) w_down ctx0 ''/missing'' zero_Stat =
       (Inr (- ENOENT, zero_Stat), f0\<lparr>notExistList := [''/missing'']\<rparr>, w_down)"
proof -
  have g: "isNotExist (f0\<lparr>notExistList := [''/gone'']\<rparr>) ''/gone''"
    by (simp add: isNotExist_def)
  have n: "\<not> isNotExist f0 ''/missing''"
    by (simp add: isNotExist_def f0_def)
  have ne: "notExist f0 ''/missing'' = f0\<lparr>notExistList := [''/missing'']\<rparr>"
    by (simp add: notExist_def isNotExist_def f0_def)
  from Getattr_negative_list [of "f0\<lparr>notExistList := [''/gone'']\<rparr>" "''/gone''" L_dir w_dir ctx0
      zero_Stat] g
  have 1: "Getattr L_dir (f0\<lparr>notExistList := [''/gone'']\<rparr>) w_dir ctx0 ''/gone'' zero_Stat =
       (Inr (- ENOENT, zero_Stat), f0\<lparr>notExistList := [''/gone'']\<rparr>, w_dir)"
    by blast
  from Getattr_negative_list [of f0 "''/missing''" L_dir w_dir ctx0 zero_Stat ErrFileNotFound]
    n GetStat_missing
  have 2: "Getattr L_dir f0 w_dir ctx0 ''/missing'' zero_Stat =
             (Inr (- ENOENT, zero_Stat), notExist f0 ''/missing'',
              w_dir\<lparr>sent := [first_attempt L_dir c0 ''GET'' ''/sap/hana/xs/dt/base/file/missing''
                        [QueryParam [(''depth'', ''0''), (''parts'', ''meta'')]]],
                    clock := 1000000\<rparr>)"
    and 3: "\<forall>w2 ctx2 s2. Getattr L_dir (notExist f0 ''/missing'') w2 ctx2 ''/missing'' s2 =
              (Inr (- ENOENT, s2), notExist f0 ''/missing'', w2)"
    by blast+
  show ?thesis using g n 1 2 3 GetStat_missing by (simp add: ne)
qed

text \<open>
  C4. A lookup can also fail by a transport error. For a path that is not in the
  negative-existence list and has no valid entry in the attribute cache, when the
  round trip of \<open>Stat\<close> fails with a transport error, \<open>Getattr\<close> does not return
  \<open>-ENOENT\<close> and does not add the path to the list: the call panics inside
  \<open>request\<close>, on the nil response, and the list is as it was.
\<close>

theorem Getattr_lookup_transport_error_panics:
  assumes "\<not> isNotExist f p"
      and "\<forall>e. statCache f p = Some e \<longrightarrow> \<not> entry_valid e (clock w)"
      and "remote w (sent w)
             (first_attempt L (client f) ''GET'' (base_file_path @ p)
                [QueryParam [(''depth'', ''0''), (''parts'', ''meta'')]]) = Inl err"
  shows "fst (Getattr L f w ctx p s) = Inl NilDereference
         \<and> notExistList (fst (snd (Getattr L f w ctx p s))) = notExistList f"
proof -
  have rq: "request L (client f) w ''GET'' (base_file_path @ p)
              [QueryParam [(''depth'', ''0''), (''parts'', ''meta'')]]
            = (Panic NilDereference, client f,
               snd (roundtrip w (first_attempt L (client f) ''GET'' (base_file_path @ p)
                [QueryParam [(''depth'', ''0''), (''parts'', ''meta'')]])))"
    using assms(3)
    by (simp add: request_def req_Do_def roundtrip_def first_attempt_def Let_def)
  have st: "fst (Stat L (client f) w p) = Panic NilDereference
            \<and> fst (snd (Stat L (client f) w p)) = client f"
    using rq by (simp add: Stat_def Let_def)
  have gs: "fst (getStat L f w ctx p) = Panic NilDereference
            \<and> notExistList (fst (snd (getStat L f w ctx p))) = notExistList f"
    using st by (cases "Stat L (client f) w p") (auto simp: getStat_def)
  have gS: "GetStat L f w ctx p = getStat L f w ctx p"
  proof (cases "statCache f p")
    case None
    with gs show ?thesis
      by (cases "getStat L f w ctx p") (auto simp: GetStat_def Let_def)
  next
    case (Some e)
    with assms(2) have "\<not> entry_valid e (clock w)" by simp
    with Some gs show ?thesis
      by (cases "getStat L f w ctx p") (auto simp: GetStat_def Let_def)
  qed
  show ?thesis using assms(1) gs gS
    by (cases "getStat L f w ctx p") (auto simp: Getattr_def)
qed

theorem Getattr_lookup_transport_error_panics_witness:
  "\<not> isNotExist f0 ''/x''
   \<and> statCache f0 ''/x'' = None
   \<and> remote w_down (sent w_down)
        (first_attempt L0 (client f0) ''GET'' (base_file_path @ ''/x'')
           [QueryParam [(''depth'', ''0''), (''parts'', ''meta'')]])
        = Inl (TransportError ''connection refused'')
   \<and> fst (Getattr L0 f0 w_down ctx0 ''/x'' zero_Stat) = Inl NilDereference
   \<and> notExistList (fst (snd (Getattr L0 f0 w_down ctx0 ''/x'' zero_Stat))) = []"
proof -
  have n: "\<not> isNotExist f0 ''/x''" by (simp add: isNotExist_def f0_def)
  have c: "statCache f0 ''/x'' = None" by (simp add: f0_def)
  then have c': "\<forall>e. statCache f0 ''/x'' = Some e \<longrightarrow> \<not> entry_valid e (clock w_down)" by simp
  have r: "remote w_down (sent w_down)
        (first_attempt L0 (client f0) ''GET'' (base_file_path @ ''/x'')
           [QueryParam [(''depth'', ''0''), (''parts'', ''meta'')]])
        = Inl (TransportError ''connection refused'')"
    by (simp add: w_down_def)
  have l: "notExistList f0 = []" by (simp add: f0_def)
  from Getattr_lookup_transport_error_panics [OF n c' r, of ctx0 zero_Stat]
  show ?thesis using n c r l by simp
qed

text \<open>
  C8. When the lookup in the attribute cache succeeds with a record whose \<open>Uid\<close> is
  zero, \<open>Getattr\<close> returns status 0 and that record with \<open>Uid\<close> and \<open>Gid\<close> set to
  the user and group of the calling context.
\<close>

theorem Getattr_fills_owner:
  assumes "\<not> isNotExist f p" and "GetStat L f w ctx p = (Ok stat, f1, w1)" and "Uid stat = 0"
  shows "fst (Getattr L f w ctx p s) = Inr (0, stat\<lparr>Uid := ctx_uid ctx, Gid := ctx_gid ctx\<rparr>)"
  using assms by (simp add: Getattr_def Let_def)

theorem Getattr_fills_owner_witness:
  "\<not> isNotExist f_unowned ''/x''
   \<and> GetStat L_dir f_unowned w_dir ctx0 ''/x'' = (Ok stat_unowned, f_unowned, w_dir)
   \<and> Uid stat_unowned = 0 \<and> Gid stat_unowned = 0
   \<and> fst (Getattr L_dir f_unowned w_dir ctx0 ''/x'' zero_Stat) =
        Inr (0, stat_unowned\<lparr>Uid := 1000, Gid := 100\<rparr>)"
proof -
  have n: "\<not> isNotExist f_unowned ''/x''"
    by (simp add: f_unowned_def f0_def PreStatCacheSeconds_def isNotExist_def)
  have g: "GetStat L_dir f_unowned w_dir ctx0 ''/x'' = (Ok stat_unowned, f_unowned, w_dir)"
    by (simp add: GetStat_def f_unowned_def PreStatCacheSeconds_def entry_valid_def
        DefaultRemoteCacheSeconds_def w_dir_def)
  have u: "Uid stat_unowned = 0" "Gid stat_unowned = 0"
    by (simp_all add: stat_unowned_def zero_Stat_def)
  from Getattr_fills_owner [OF n g u(1), of zero_Stat]
  show ?thesis using n g u by (simp add: ctx0_def)
qed

subsection \<open>\<open>Read\<close>\<close>

lemma wrap64_id:
  "- 9223372036854775808 \<le> x \<Longrightarrow> x < 9223372036854775808 \<Longrightarrow> wrap64 x = x"
  by (simp add: wrap64_def)

lemma wrap64_over:
  assumes a: "9223372036854775808 \<le> x" and b: "x < 18446744073709551616"
  shows "wrap64 x < 0"
proof -
  have "(x + 9223372036854775808) mod 18446744073709551616 = x - 9223372036854775808"
    by (rule int_mod_pos_eq [where q = 1]) (use a b in simp_all)
  then show ?thesis using b by (simp add: wrap64_def)
qed

lemma Read_after_ReadFile:
  assumes rf: "ReadFile L (client f) w path = (Ok contents, c1, w1)"
  shows "Read L f w path buff ofst =
          (let endofst0 = wrap64 (ofst + int (length buff));
               endofst = (if endofst0 > int (length contents)
                          then int (length contents) else endofst0)
           in if endofst < ofst then (Inr (0, buff), f\<lparr>client := c1\<rparr>, w1)
              else if 0 \<le> ofst \<and> ofst \<le> endofst \<and> endofst \<le> int (length contents) then
                (let (n, buff1) = copy buff (take (nat (endofst - ofst)) (drop (nat ofst) contents))
                 in (Inr (int n, buff1), f\<lparr>client := c1\<rparr>, w1))
              else (Inl SliceBounds, f\<lparr>client := c1\<rparr>, w1))"
  using rf by (simp add: Read_def)

text \<open>
  C5. For contents \<open>c\<close> that \<open>ReadFile\<close> returns, a buffer \<open>b\<close> and an
  offset \<open>0 \<le> ofst\<close> (an \<open>int64\<close>; the two lengths together below \<open>2^63\<close>), \<open>Read\<close>
  returns \<open>n\<close> and the buffer whose first \<open>n\<close> bytes are the bytes
  \<open>ofst .. ofst+n-1\<close> of \<open>c\<close> and whose other bytes are unchanged, where \<open>n\<close> is 0 if
  \<open>ofst\<close> is at or beyond the length of \<open>c\<close>, the trailing \<open>len(c) - ofst\<close> if
  \<open>ofst + len(b)\<close> exceeds the length of \<open>c\<close>, and \<open>len(b)\<close> otherwise.
\<close>

theorem Read_copies_clipped_range:
  assumes rf: "ReadFile L (client f) w path = (Ok contents, c1, w1)"
      and lo: "0 \<le> ofst" and hi: "ofst < 9223372036854775808"
      and mem: "int (length contents) + int (length buff) < 9223372036854775808"
  shows "Read L f w path buff ofst =
           (let n = (if int (length contents) \<le> ofst then 0
                     else if int (length contents) < ofst + int (length buff)
                     then length contents - nat ofst
                     else length buff)
            in (Inr (int n, take n (drop (nat ofst) contents) @ drop n buff),
                f\<lparr>client := c1\<rparr>, w1))"
proof -
  obtain k where k: "ofst = int k" using lo by (metis nonneg_int_cases)
  note R = Read_after_ReadFile [OF rf, of buff "int k"]
  show ?thesis
  proof (cases "ofst + int (length buff) < 9223372036854775808")
    case True
    then have w: "wrap64 (int k + int (length buff)) = int k + int (length buff)"
      unfolding k by (simp add: wrap64_id)
    consider (beyond) "length contents < k"
      | (tail) "k \<le> length contents" "length contents < k + length buff"
      | (inside) "k + length buff \<le> length contents"
      by linarith
    then show ?thesis
    proof cases
      case beyond
      then show ?thesis unfolding k R w by (simp add: Let_def)
    next
      case tail
      have e: "nat (int (length contents) - int k) = length contents - k" by simp
      have m: "min (length buff) (length contents - k) = length contents - k"
        using tail by simp
      show ?thesis unfolding k R w using tail
        by (simp add: Let_def copy_def e m)
    next
      case inside
      have m: "min (length buff) (length contents - k) = length buff"
        using inside by simp
      have z: "length contents \<le> k \<Longrightarrow> buff = []"
      proof -
        assume "length contents \<le> k"
        with inside have "length buff = 0" by linarith
        then show "buff = []" by simp
      qed
      show ?thesis unfolding k R w using inside
        by (auto simp add: Let_def copy_def m dest: z)
    qed
  next
    case False
    then have big: "9223372036854775808 \<le> ofst + int (length buff)" by simp
    moreover have "ofst + int (length buff) < 18446744073709551616" using hi mem by simp
    ultimately have neg: "wrap64 (ofst + int (length buff)) < 0" by (rule wrap64_over)
    have beyond: "int (length contents) < ofst" using big mem by simp
    show ?thesis using neg lo beyond unfolding k R by (simp add: Let_def)
  qed
qed

lemma rf_a: "ReadFile L_dir (client f0) w_dir ''/parent/a'' =
   (Ok ''hello world'', c0,
    w_dir\<lparr>sent := [first_attempt L_dir c0 ''GET'' ''/sap/hana/xs/dt/base/file/parent/a'' []],
          clock := 1000000\<rparr>)"
  by (simp add: eval_simps dir_simps first_attempt_def)

text \<open>Reading 8 bytes at offsets 6 and 11 of the 11 bytes \<open>hello world\<close>.\<close>

theorem Read_copies_clipped_range_witness:
  "fst (ReadFile L_dir (client f0) w_dir ''/parent/a'') = Ok ''hello world''
   \<and> fst (Read L_dir f0 w_dir ''/parent/a'' ''xxxxxxxx'' 6) = Inr (5, ''worldxxx'')
   \<and> fst (Read L_dir f0 w_dir ''/parent/a'' ''xxxxxxxx'' 11) = Inr (0, ''xxxxxxxx'')"
proof -
  have a: "fst (Read L_dir f0 w_dir ''/parent/a'' ''xxxxxxxx'' 6) = Inr (5, ''worldxxx'')"
    using Read_copies_clipped_range [OF rf_a, of 6 "''xxxxxxxx''"] by (simp add: Let_def)
  have b: "fst (Read L_dir f0 w_dir ''/parent/a'' ''xxxxxxxx'' 11) = Inr (0, ''xxxxxxxx'')"
    using Read_copies_clipped_range [OF rf_a, of 11 "''xxxxxxxx''"] by (simp add: Let_def)
  show ?thesis using a b rf_a by simp
qed

subsection \<open>The provider of the directory cache\<close>

lemma sizeFill_frame:
  "sizeFill L f w path s = (r, f', w') \<Longrightarrow>
     statCache f' = statCache f \<and> dirCache f' = dirCache f \<and> notExistList f' = notExistList f"
  by (auto simp: sizeFill_def split: if_splits prod.splits res.splits)

lemma childStat_frame:
  "childStat L f w ctx path now c = (r, f', w') \<Longrightarrow>
     statCache f' = statCache f \<and> dirCache f' = dirCache f \<and> notExistList f' = notExistList f"
  by (auto simp: childStat_def Let_def dest: sizeFill_frame split: if_splits)

lemma getDir_loop_frame:
  "getDir_loop L f w ctx path now cs rt = (Inr rt', f', w') \<Longrightarrow>
     dirCache f' = dirCache f \<and> notExistList f' = notExistList f"
proof (induction cs arbitrary: f w rt)
  case Nil
  then show ?case by simp
next
  case (Cons c cs)
  obtain r f1 w1 where cs1: "childStat L f w ctx path now c = (r, f1, w1)"
    by (metis prod_cases3)
  with Cons.prems obtain st where r: "r = Inr st"
    by (cases r) auto
  from Cons.prems cs1 r have
    "getDir_loop L (PreStatCacheSeconds f1 w1 (ContentLocation c) st DefaultRemoteCacheSeconds)
        w1 ctx path now cs (rt\<lparr>children := (children rt)(Name c \<mapsto> st)\<rparr>) = (Inr rt', f', w')"
    by (simp add: Let_def)
  from Cons.IH [OF this] childStat_frame [OF cs1] show ?case
    by (simp add: PreStatCacheSeconds_def)
qed

lemma roundtrip_clock: "roundtrip w r = (x, w') \<Longrightarrow> clock w \<le> clock w'"
  by (auto simp: roundtrip_def)

lemma req_Do_clock: "req_Do w m u i = (x, w') \<Longrightarrow> clock w \<le> clock w'"
  by (auto simp: req_Do_def dest: roundtrip_clock)

lemma fetchCSRFToken_clock: "fetchCSRFToken L c w = (x, c', w') \<Longrightarrow> clock w \<le> clock w'"
proof -
  assume a: "fetchCSRFToken L c w = (x, c', w')"
  obtain r w1 where r: "req_Head w (formatURI c ''/sap/hana/xs/dt/base/info'')
      [Header [(keyCSRFTokenHeader, ''fetch''),
               (keyAuthorization, basicAuth L (Username (uri c)) (Password (uri c)))]] = (r, w1)"
    by (metis surj_pair)
  then have c1: "clock w \<le> clock w1" by (auto simp: req_Head_def dest: req_Do_clock)
  from a r have "w' = w1"
    by (auto simp: fetchCSRFToken_def Let_def split: sum.splits if_splits)
  with c1 show ?thesis by simp
qed

lemma request_clock: "request L c w m p i = (x, c', w') \<Longrightarrow> clock w \<le> clock w'"
proof -
  assume a: "request L c w m p i = (x, c', w')"
  let ?infos = "i @ [Header [(keyCSRFTokenHeader, token c),
                   (keyAuthorization, basicAuth L (Username (uri c)) (Password (uri c)))]]"
  obtain r w1 where r: "req_Do w m (formatURI c p) ?infos = (r, w1)" by (metis surj_pair)
  then have c1: "clock w \<le> clock w1" by (rule req_Do_clock)
  show ?thesis
  proof (cases r)
    case (Inl e)
    with a r have "w' = w1" by (simp add: request_def Let_def)
    with c1 show ?thesis by simp
  next
    case (Inr resp)
    show ?thesis
    proof (cases "isCSRFTokenError L resp")
      case False
      with a r Inr have "w' = w1" by (simp add: request_def Let_def)
      with c1 show ?thesis by simp
    next
      case True
      obtain fe c2 w2 where f: "fetchCSRFToken L c w1 = (fe, c2, w2)" by (metis prod_cases3)
      then have c2: "clock w1 \<le> clock w2" by (rule fetchCSRFToken_clock)
      show ?thesis
      proof (cases fe)
        case (Some e)
        with a r Inr True f have "w' = w2" by (simp add: request_def Let_def)
        with c1 c2 show ?thesis by simp
      next
        case None
        obtain r2 w3 where r2: "req_Do w2 m (formatURI c p) ?infos = (r2, w3)" by (metis surj_pair)
        then have c3: "clock w2 \<le> clock w3" by (rule req_Do_clock)
        from a r Inr True f None r2 have "w' = w3"
          by (cases r2) (simp_all add: request_def Let_def)
        with c1 c2 c3 show ?thesis by simp
      qed
    qed
  qed
qed

lemma ReadFile_clock: "ReadFile L c w p = (x, c', w') \<Longrightarrow> clock w \<le> clock w'"
proof -
  assume a: "ReadFile L c w p = (x, c', w')"
  obtain r c1 w1 where r: "request L c w ''GET'' (base_file_path @ p) [] = (r, c1, w1)"
    by (metis prod_cases3)
  then have c1: "clock w \<le> clock w1" by (rule request_clock)
  from a r have "w' = w1"
    by (cases r) (auto simp: ReadFile_def split: if_splits sum.splits)
  with c1 show ?thesis by simp
qed

lemma sizeFill_clock: "sizeFill L f w path s = (x, f', w') \<Longrightarrow> clock w \<le> clock w'"
proof -
  assume a: "sizeFill L f w path s = (x, f', w')"
  obtain r c1 w1 where r: "ReadFile L (client f) w path = (r, c1, w1)" by (metis prod_cases3)
  then have c1: "clock w \<le> clock w1" by (rule ReadFile_clock)
  from a r have "w' = w1 \<or> w' = w"
    by (cases r) (auto simp: sizeFill_def split: if_splits)
  with c1 show ?thesis by auto
qed

lemma childStat_clock: "childStat L f w ctx path now d = (x, f', w') \<Longrightarrow> clock w \<le> clock w'"
  by (auto simp: childStat_def Let_def dest: sizeFill_clock split: if_splits)

lemma sizeFill_fields:
  "sizeFill L f w path s = (Inr st, f', w') \<Longrightarrow>
     Mode st = Mode s \<and> Uid st = Uid s \<and> Gid st = Gid s \<and> Atim st = Atim s \<and>
     Mtim st = Mtim s \<and> Ctim st = Ctim s \<and> Flags st = Flags s"
  by (auto simp: sizeFill_def split: if_splits prod.splits res.splits)

lemma childStat_record:
  "childStat L f w ctx path now d = (Inr st, f', w') \<Longrightarrow> child_record_of ctx now d st"
proof (cases "Directory d")
  case True
  assume "childStat L f w ctx path now d = (Inr st, f', w')"
  with True show ?thesis
    by (auto simp: childStat_def Let_def child_record_of_def zero_Stat_def)
next
  case False
  assume "childStat L f w ctx path now d = (Inr st, f', w')"
  with False have
    "sizeFill L f w path
       (zero_Stat\<lparr>Flags := 0, Uid := ctx_uid ctx, Gid := ctx_gid ctx,
                  Ctim := now, Atim := now, Mtim := now, Mode := S_IFREG OR S_IRWXU\<rparr>)
      = (Inr st, f', w')"
    by (simp add: childStat_def Let_def)
  from sizeFill_fields [OF this] False show ?thesis
    by (simp add: child_record_of_def)
qed

lemma getDir_loop_step:
  assumes "getDir_loop L f w ctx path now (d # cs) rt = (Inr rt', f', w')"
  obtains st f1 w1 where
    "childStat L f w ctx path now d = (Inr st, f1, w1)"
    "getDir_loop L (PreStatCacheSeconds f1 w1 (ContentLocation d) st DefaultRemoteCacheSeconds)
        w1 ctx path now cs (rt\<lparr>children := (children rt)(Name d \<mapsto> st)\<rparr>) = (Inr rt', f', w')"
proof -
  obtain r f1 w1 where cs1: "childStat L f w ctx path now d = (r, f1, w1)"
    by (metis prod_cases3)
  with assms obtain st where r: "r = Inr st"
    by (cases r) auto
  from assms cs1 r have
    "getDir_loop L (PreStatCacheSeconds f1 w1 (ContentLocation d) st DefaultRemoteCacheSeconds)
        w1 ctx path now cs (rt\<lparr>children := (children rt)(Name d \<mapsto> st)\<rparr>) = (Inr rt', f', w')"
    by (simp add: Let_def)
  with cs1 r that show thesis by blast
qed

lemma getDir_loop_clock:
  "getDir_loop L f w ctx path now cs rt = (Inr rt', f', w') \<Longrightarrow> clock w \<le> clock w'"
proof (induction cs arbitrary: f w rt)
  case Nil
  then show ?case by simp
next
  case (Cons d cs)
  from Cons.prems obtain st f1 w1 where
    c: "childStat L f w ctx path now d = (Inr st, f1, w1)" and
    run: "getDir_loop L (PreStatCacheSeconds f1 w1 (ContentLocation d) st DefaultRemoteCacheSeconds)
        w1 ctx path now cs (rt\<lparr>children := (children rt)(Name d \<mapsto> st)\<rparr>) = (Inr rt', f', w')"
    by (rule getDir_loop_step)
  from childStat_clock [OF c] Cons.IH [OF run] show ?case by simp
qed

lemma getDir_loop_untouched:
  "getDir_loop L f w ctx path now cs rt = (Inr rt', f', w') \<Longrightarrow>
     k \<notin> ContentLocation ` set cs \<Longrightarrow> statCache f' k = statCache f k"
proof (induction cs arbitrary: f w rt)
  case Nil
  then show ?case by simp
next
  case (Cons d cs)
  from Cons.prems(1) obtain st f1 w1 where
    c: "childStat L f w ctx path now d = (Inr st, f1, w1)" and
    run: "getDir_loop L (PreStatCacheSeconds f1 w1 (ContentLocation d) st DefaultRemoteCacheSeconds)
        w1 ctx path now cs (rt\<lparr>children := (children rt)(Name d \<mapsto> st)\<rparr>) = (Inr rt', f', w')"
    by (rule getDir_loop_step)
  from Cons.prems(2) have k: "k \<noteq> ContentLocation d" "k \<notin> ContentLocation ` set cs" by auto
  from Cons.IH [OF run k(2)] k(1) childStat_frame [OF c] show ?case
    by (simp add: PreStatCacheSeconds_def)
qed

lemma getDir_loop_entry:
  "getDir_loop L f w ctx path now cs rt = (Inr rt', f', w') \<Longrightarrow>
     k \<in> ContentLocation ` set cs \<Longrightarrow>
     \<exists>e. statCache f' k = Some e \<and> ttl e = DefaultRemoteCacheSeconds
         \<and> clock w \<le> stamp e \<and> stamp e \<le> clock w'
         \<and> child_record_of ctx now (last (filter (\<lambda>x. ContentLocation x = k) cs)) (entry_value e)"
proof (induction cs arbitrary: f w rt)
  case Nil
  then show ?case by simp
next
  case (Cons d cs)
  from Cons.prems(1) obtain st f1 w1 where
    c: "childStat L f w ctx path now d = (Inr st, f1, w1)" and
    run: "getDir_loop L (PreStatCacheSeconds f1 w1 (ContentLocation d) st DefaultRemoteCacheSeconds)
        w1 ctx path now cs (rt\<lparr>children := (children rt)(Name d \<mapsto> st)\<rparr>) = (Inr rt', f', w')"
    by (rule getDir_loop_step)
  have c1: "clock w \<le> clock w1" by (rule childStat_clock [OF c])
  have c2: "clock w1 \<le> clock w'" by (rule getDir_loop_clock [OF run])
  show ?case
  proof (cases "k \<in> ContentLocation ` set cs")
    case True
    then have ne: "filter (\<lambda>x. ContentLocation x = k) cs \<noteq> []"
      by (auto simp: filter_empty_conv)
    from Cons.IH [OF run True] obtain e where
      e: "statCache f' k = Some e" "ttl e = DefaultRemoteCacheSeconds"
         "clock w1 \<le> stamp e" "stamp e \<le> clock w'"
         "child_record_of ctx now (last (filter (\<lambda>x. ContentLocation x = k) cs)) (entry_value e)"
      by blast
    have "last (filter (\<lambda>x. ContentLocation x = k) (d # cs))
            = last (filter (\<lambda>x. ContentLocation x = k) cs)"
      using ne by simp
    with e c1 show ?thesis by auto
  next
    case False
    with Cons.prems(2) have kd: "k = ContentLocation d" by auto
    from False have em: "filter (\<lambda>x. ContentLocation x = k) cs = []"
      by (auto simp: filter_empty_conv)
    have "statCache f' k =
            statCache (PreStatCacheSeconds f1 w1 (ContentLocation d) st DefaultRemoteCacheSeconds) k"
      by (rule getDir_loop_untouched [OF run False])
    then have sc: "statCache f' k =
        Some \<lparr>entry_value = st, stamp = clock w1, ttl = DefaultRemoteCacheSeconds\<rparr>"
      using kd by (simp add: PreStatCacheSeconds_def)
    have "last (filter (\<lambda>x. ContentLocation x = k) (d # cs)) = d"
      using em kd by simp
    with sc c1 c2 childStat_record [OF c] show ?thesis by simp
  qed
qed

lemma getDir_loop_names:
  "getDir_loop L f w ctx path now cs rt = (Inr rt', f', w') \<Longrightarrow>
     dom (children rt') = dom (children rt) \<union> Name ` set cs"
proof (induction cs arbitrary: f w rt)
  case Nil
  then show ?case by simp
next
  case (Cons d cs)
  from Cons.prems(1) obtain st f1 w1 where
    run: "getDir_loop L (PreStatCacheSeconds f1 w1 (ContentLocation d) st DefaultRemoteCacheSeconds)
        w1 ctx path now cs (rt\<lparr>children := (children rt)(Name d \<mapsto> st)\<rparr>) = (Inr rt', f', w')"
    by (rule getDir_loop_step)
  from Cons.IH [OF run] show ?case by auto
qed

text \<open>
  C2 (as amended). When \<open>getDir\<close> returns a listing, then for every child of the
  listing that \<open>ReadDirectory\<close> returned the attribute cache holds, under the child's
  own path (its \<open>ContentLocation\<close>), an entry that this call preloaded: its stamp lies
  between the return of \<open>ReadDirectory\<close> and the return of \<open>getDir\<close>, its time-to-live
  is the default, so it is valid at every time less than the time-to-live after the
  return of \<open>ReadDirectory\<close>, and its value is the record built for the child (for the
  last child with that path, should two children share one): mode bits by the
  directory flag, owner and group of the calling context, times of the listing. The
  returned listing has the children's names as its keys and is the entry of the
  directory cache under the parent path, stamped at the return. A later \<open>Getattr\<close> on
  the child's path, within the time-to-live window (while the entry is valid) and with
  the path not in the negative-existence list, returns status 0 and the cached record (owner filled
  in when unset) and leaves the world, so the requests sent, as it was.
\<close>

theorem getDir_preloads_children:
  assumes g: "getDir L f w ctx path = (Ok rt, f', w')"
      and rd: "ReadDirectory L (client f) w path = (Ok dir, c1, w1)"
      and ch: "child \<in> set (Children dir)"
  shows "\<exists>e d. statCache f' (ContentLocation child) = Some e
           \<and> ttl e = DefaultRemoteCacheSeconds
           \<and> clock w1 \<le> stamp e \<and> stamp e \<le> clock w'
           \<and> (\<forall>t. t - clock w1 < DefaultRemoteCacheSeconds * 1000000000 \<longrightarrow> entry_valid e t)
           \<and> d = last (filter (\<lambda>x. ContentLocation x = ContentLocation child) (Children dir))
           \<and> (distinct (map ContentLocation (Children dir)) \<longrightarrow> d = child)
           \<and> Mode (entry_value e) =
               (if Directory d then S_IFDIR OR S_IRWXU else S_IFREG OR S_IRWXU)
           \<and> Uid (entry_value e) = ctx_uid ctx \<and> Gid (entry_value e) = ctx_gid ctx
           \<and> Atim (entry_value e) = Now w1 \<and> Mtim (entry_value e) = Now w1
           \<and> Ctim (entry_value e) = Now w1 \<and> Flags (entry_value e) = 0
           \<and> (Directory d \<longrightarrow> Size (entry_value e) = 0)
           \<and> dom (children rt) = Name ` set (Children dir)
           \<and> dirCache f' path =
               Some \<lparr>entry_value = rt, stamp = clock w', ttl = DefaultRemoteCacheSeconds\<rparr>
           \<and> (\<forall>w2 ctx2 s.
                 entry_valid e (clock w2) \<and> \<not> isNotExist f' (ContentLocation child) \<longrightarrow>
                 fst (Getattr L f' w2 ctx2 (ContentLocation child) s) =
                   Inr (0, if Uid (entry_value e) = 0
                           then (entry_value e)\<lparr>Uid := ctx_uid ctx2, Gid := ctx_gid ctx2\<rparr>
                           else entry_value e)
                 \<and> snd (snd (Getattr L f' w2 ctx2 (ContentLocation child) s)) = w2)"
proof -
  let ?k = "ContentLocation child"
  let ?d = "last (filter (\<lambda>x. ContentLocation x = ?k) (Children dir))"
  obtain r f2 w2 where lp:
    "getDir_loop L (f\<lparr>client := c1\<rparr>) w1 ctx path (Now w1) (Children dir)
       \<lparr>children = Map.empty\<rparr> = (r, f2, w2)"
    by (metis prod_cases3)
  with g rd have r: "r = Inr rt"
    by (cases r) (auto simp: getDir_def)
  from g rd lp r have f': "f' = PreDirectoryCacheSeconds f2 w2 path rt DefaultRemoteCacheSeconds"
    and w': "w' = w2"
    by (auto simp: getDir_def)
  note lp' = lp [unfolded r]
  from ch have k: "?k \<in> ContentLocation ` set (Children dir)" by simp
  from getDir_loop_entry [OF lp' k]
  obtain e where e: "statCache f2 ?k = Some e" "ttl e = DefaultRemoteCacheSeconds"
    "clock w1 \<le> stamp e" "stamp e \<le> clock w2"
    "child_record_of ctx (Now w1) ?d (entry_value e)" by blast
  have sc: "statCache f' ?k = Some e"
    using e(1) f' by (simp add: PreDirectoryCacheSeconds_def)
  have dc: "dirCache f' path =
      Some \<lparr>entry_value = rt, stamp = clock w', ttl = DefaultRemoteCacheSeconds\<rparr>"
    using f' w' by (simp add: PreDirectoryCacheSeconds_def)
  have win: "\<forall>t. t - clock w1 < DefaultRemoteCacheSeconds * 1000000000 \<longrightarrow> entry_valid e t"
    using e(2,3) by (auto simp: entry_valid_def)
  have nm: "dom (children rt) = Name ` set (Children dir)"
    using getDir_loop_names [OF lp'] by simp
  have ne: "filter (\<lambda>x. ContentLocation x = ?k) (Children dir) \<noteq> []"
    using ch by (auto simp: filter_empty_conv)
  then have "?d \<in> set (filter (\<lambda>x. ContentLocation x = ?k) (Children dir))"
    by (rule last_in_set)
  then have din: "?d \<in> set (Children dir)" and dk: "ContentLocation ?d = ?k" by auto
  have dist: "distinct (map ContentLocation (Children dir)) \<longrightarrow> ?d = child"
  proof
    assume "distinct (map ContentLocation (Children dir))"
    then have "inj_on ContentLocation (set (Children dir))" by (simp add: distinct_map)
    from inj_onD [OF this dk din ch] show "?d = child" .
  qed
  note hit = Getattr_hit [OF sc]
  from e(5) have rec:
    "Mode (entry_value e) = (if Directory ?d then S_IFDIR OR S_IRWXU else S_IFREG OR S_IRWXU)"
    "Uid (entry_value e) = ctx_uid ctx" "Gid (entry_value e) = ctx_gid ctx"
    "Atim (entry_value e) = Now w1" "Mtim (entry_value e) = Now w1"
    "Ctim (entry_value e) = Now w1" "Flags (entry_value e) = 0"
    "Directory ?d \<longrightarrow> Size (entry_value e) = 0"
    by (simp_all add: child_record_of_def)
  show ?thesis
    apply (rule exI [of _ e], rule exI [of _ ?d])
    using sc e(2,3) e(4) [folded w'] win dist rec nm dc hit by blast
qed

lemma getDir_parent_ok: "\<exists>rt. fst (getDir L_dir f0 w_dir ctx0 ''/parent'') = Ok rt"
  by (simp add: eval_simps dir_simps fs_simps)

lemma getDir_parent_entry:
  "\<exists>e. statCache (fst (snd (getDir L_dir f0 w_dir ctx0 ''/parent''))) ''/parent/a'' = Some e
       \<and> stamp e = 2000000 \<and> ttl e = 15 \<and> Uid (entry_value e) = 1000"
  by (simp add: eval_simps dir_simps fs_simps)

lemma getDir_parent_state:
  "notExistList (fst (snd (getDir L_dir f0 w_dir ctx0 ''/parent''))) = []
   \<and> clock (snd (snd (getDir L_dir f0 w_dir ctx0 ''/parent''))) = 2000000"
  by (simp add: eval_simps dir_simps fs_simps)

lemma ReadDirectory_parent:
  "\<exists>c1 w1. ReadDirectory L_dir (client f0) w_dir ''/parent'' =
     (Ok \<lparr>Children = [child_a, child_b]\<rparr>, c1, w1)"
  by (simp add: eval_simps dir_simps)

text \<open>The listing of \<open>/parent\<close>, followed by \<open>Getattr\<close> on \<open>/parent/a\<close>.\<close>

theorem getDir_preloads_children_witness:
  "\<exists>rt f' w' e. getDir L_dir f0 w_dir ctx0 ''/parent'' = (Ok rt, f', w')
     \<and> statCache f' ''/parent/a'' = Some e
     \<and> Mode (entry_value e) = S_IFREG OR S_IRWXU
     \<and> entry_valid e (clock w')
     \<and> \<not> isNotExist f' ''/parent/a''
     \<and> fst (Getattr L_dir f' w' ctx0 ''/parent/a'' zero_Stat) = Inr (0, entry_value e)
     \<and> snd (snd (Getattr L_dir f' w' ctx0 ''/parent/a'' zero_Stat)) = w'"
proof -
  obtain r f' w' where G: "getDir L_dir f0 w_dir ctx0 ''/parent'' = (r, f', w')"
    by (metis prod_cases3)
  with getDir_parent_ok obtain rt where r: "r = Ok rt" by auto
  from ReadDirectory_parent obtain c1 w1 where
    rd: "ReadDirectory L_dir (client f0) w_dir ''/parent'' =
           (Ok \<lparr>Children = [child_a, child_b]\<rparr>, c1, w1)" by blast
  have mem: "child_a \<in> set (Children \<lparr>Children = [child_a, child_b]\<rparr>)" by simp
  have loc: "ContentLocation child_a = ''/parent/a''" by (simp add: child_a_def)
  have dst: "distinct (map ContentLocation (Children \<lparr>Children = [child_a, child_b]\<rparr>))"
    by (simp add: child_a_def child_b_def)
  from getDir_preloads_children [OF G [unfolded r] rd mem]
  obtain e d where e: "statCache f' (ContentLocation child_a) = Some e"
    and d: "distinct (map ContentLocation (Children \<lparr>Children = [child_a, child_b]\<rparr>))
              \<longrightarrow> d = child_a"
    and md: "Mode (entry_value e) =
               (if Directory d then S_IFDIR OR S_IRWXU else S_IFREG OR S_IRWXU)"
    and hit: "\<forall>w2 ctx2 s.
                 entry_valid e (clock w2) \<and> \<not> isNotExist f' (ContentLocation child_a) \<longrightarrow>
                 fst (Getattr L_dir f' w2 ctx2 (ContentLocation child_a) s) =
                   Inr (0, if Uid (entry_value e) = 0
                           then (entry_value e)\<lparr>Uid := ctx_uid ctx2, Gid := ctx_gid ctx2\<rparr>
                           else entry_value e)
                 \<and> snd (snd (Getattr L_dir f' w2 ctx2 (ContentLocation child_a) s)) = w2"
    by blast
  from d dst have "d = child_a" by blast
  with md have mode: "Mode (entry_value e) = S_IFREG OR S_IRWXU" by (simp add: child_a_def)
  from getDir_parent_entry G e loc have st: "stamp e = 2000000" "ttl e = 15" "Uid (entry_value e) = 1000"
    by auto
  from getDir_parent_state G have fw: "notExistList f' = []" "clock w' = 2000000" by auto
  have v: "entry_valid e (clock w')" using st fw by (simp add: entry_valid_def)
  have n: "\<not> isNotExist f' ''/parent/a''" using fw by (simp add: isNotExist_def)
  have n': "\<not> isNotExist f' (ContentLocation child_a)" using n loc by simp
  note h = hit [THEN spec, THEN spec, THEN spec, of w' ctx0 zero_Stat]
  from h v n' have
    "fst (Getattr L_dir f' w' ctx0 (ContentLocation child_a) zero_Stat) =
       Inr (0, if Uid (entry_value e) = 0
               then (entry_value e)\<lparr>Uid := ctx_uid ctx0, Gid := ctx_gid ctx0\<rparr>
               else entry_value e)
     \<and> snd (snd (Getattr L_dir f' w' ctx0 (ContentLocation child_a) zero_Stat)) = w'"
    by blast
  then have res:
    "fst (Getattr L_dir f' w' ctx0 ''/parent/a'' zero_Stat) = Inr (0, entry_value e)
     \<and> snd (snd (Getattr L_dir f' w' ctx0 ''/parent/a'' zero_Stat)) = w'"
    using st(3) loc by simp
  have e': "statCache f' ''/parent/a'' = Some e" using e loc by simp
  show ?thesis
    apply (rule exI [of _ rt], rule exI [of _ f'], rule exI [of _ w'], rule exI [of _ e])
    using G r e' mode v n res by simp
qed

text \<open>
  With \<open>/parent/a\<close> in the negative-existence list, the listing of \<open>/parent\<close>
  succeeds and preloads a valid entry for \<open>/parent/a\<close>, yet \<open>Getattr\<close> on
  \<open>/parent/a\<close> returns \<open>-ENOENT\<close>.
\<close>

theorem getDir_child_on_negative_list_not_served:
  "\<exists>rt f' w' e. getDir L_dir f_gone w_dir ctx0 ''/parent'' = (Ok rt, f', w')
     \<and> statCache f' ''/parent/a'' = Some e
     \<and> entry_valid e (clock w')
     \<and> fst (Getattr L_dir f' w' ctx0 ''/parent/a'' zero_Stat) = Inr (- ENOENT, zero_Stat)"
proof -
  obtain r f' w' where G: "getDir L_dir f_gone w_dir ctx0 ''/parent'' = (r, f', w')"
    by (metis prod_cases3)
  have "\<exists>rt. fst (getDir L_dir f_gone w_dir ctx0 ''/parent'') = Ok rt"
    by (simp add: eval_simps dir_simps fs_simps f_gone_def)
  with G obtain rt where r: "r = Ok rt" by auto
  have "\<exists>e. statCache (fst (snd (getDir L_dir f_gone w_dir ctx0 ''/parent''))) ''/parent/a'' = Some e
       \<and> entry_valid e (clock (snd (snd (getDir L_dir f_gone w_dir ctx0 ''/parent''))))"
    by (simp add: eval_simps dir_simps fs_simps f_gone_def)
  with G obtain e where e: "statCache f' ''/parent/a'' = Some e" "entry_valid e (clock w')"
    by auto
  have "notExistList (fst (snd (getDir L_dir f_gone w_dir ctx0 ''/parent''))) = [''/parent/a'']"
    by (simp add: eval_simps dir_simps fs_simps f_gone_def)
  with G have "isNotExist f' ''/parent/a''" by (simp add: isNotExist_def)
  then have "fst (Getattr L_dir f' w' ctx0 ''/parent/a'' zero_Stat) = Inr (- ENOENT, zero_Stat)"
    by (simp add: Getattr_def)
  with G r e show ?thesis by auto
qed

text \<open>
  C6. In the listing of \<open>/parent\<close> the size of the regular file \<open>a\<close> is 7, the
  length of what reading \<open>/parent\<close> gives, while the content of \<open>/parent/a\<close> has 11
  bytes: both requests of \<open>getDir\<close> go to the directory's own path, none to the
  child's.
\<close>

theorem getDir_size_from_directory_path:
  "(case getDir L_dir f0 w_dir ctx0 ''/parent'' of
      (r, f', w') \<Rightarrow>
        (\<exists>rt st. r = Ok rt \<and> children rt ''a'' = Some st \<and> Size st = 7) \<and>
        map req_url (sent w') =
          [''https://hana.example:443/sap/hana/xs/dt/base/file/parent'',
           ''https://hana.example:443/sap/hana/xs/dt/base/file/parent''])
   \<and> fst (ReadFile L_dir c0 w_dir ''/parent/a'') = Ok ''hello world''"
  by (simp add: eval_simps dir_simps fs_simps)

end
